theory Spec2Isabelle
  imports Main "HOL-Library.Word"
begin

section \<open>Arrays, tensors and the dataset dict\<close>

text \<open>
  A numpy array or torch tensor is its shape together with its indexing function; only
  indices inside the shape are meaningful. Two-dimensional arrays are masks (height, width);
  three-dimensional ones are images (height, width, channel), decoded part masks
  (height, width, part) and stacked masks (instance, height, width).
\<close>

record 'a array2 =
  shape2 :: "nat \<times> nat"
  at2 :: "nat \<Rightarrow> nat \<Rightarrow> 'a"

record 'a array3 =
  shape3 :: "nat \<times> nat \<times> nat"
  at3 :: "nat \<Rightarrow> nat \<Rightarrow> nat \<Rightarrow> 'a"

text \<open>
  The exceptions that can leave \<open>__call__\<close>. \<open>InvariantViolation\<close> is the
  \<open>AssertionError\<close> of the \<open>assert\<close> statement, \<open>SizeMismatch\<close> the framework's
  \<open>SizeMismatchError\<close>; \<open>AxisError\<close> is numpy's, \<open>StackError\<close> the one of
  \<open>torch.stack\<close> on tensors of different shapes.
\<close>

datatype error =
  KeyError string
  | TypeError
  | IOError
  | SizeMismatch
  | InvariantViolation
  | DecodeError
  | AxisError
  | StackError

text \<open>
  \<open>mask.decode\<close> returns a two-dimensional array for a single run-length object and a
  three-dimensional one (height, width, part) for a list of objects.
\<close>

datatype decoded = Dec2 "8 word array2" | Dec3 "8 word array3"

type_synonym box = "nat \<times> nat \<times> nat \<times> nat"

text \<open>
  The \<open>Instances\<close> aggregate with the three fields the mapper sets. Box coordinates are
  pixel indices stored as float32, exact below \<open>2 ^ 24\<close>; they are kept as naturals
  (x0, y0, x1, y1). The box tensor has shape \<open>(length boxes, 4)\<close>.
\<close>

record instances =
  image_size :: "nat \<times> nat"
  gt_classes :: "64 word list"
  gt_masks :: "bool array3"
  gt_boxes :: "box list"

definition boxes_shape :: "box list \<Rightarrow> nat \<times> nat" where
  "boxes_shape bs = (length bs, 4)"

text \<open>
  The values a dataset dict holds. \<open>'p\<close> is the annotation payload handed to the mask
  codec (polygon list or run-length structure), opaque to the mapper.
\<close>

datatype 'p pyval =
  PStr string
  | PInt int
  | PPayloads "'p list"
  | PLabels "int list"
  | PTensor "8 word array3"
  | PInstances instances
  | POther nat

type_synonym 'p dict = "string \<rightharpoonup> 'p pyval"

text \<open>
  The collaborators of the mapper, fixed at construction: \<open>utils.read_image\<close> with the
  configured format, the augmentation list (applied to the image it returns the
  transformed image and the transform handle, given here by its \<open>apply_segmentation\<close> on
  a mask with the singleton channel added and removed around it), and the mask codec
  \<open>mask.decode (mask.frPyObjects inst height width)\<close>.

  \<open>int64_cast\<close> is what numpy and torch do with a list of labels that holds a value
  outside the int64 range: \<open>np.array\<close> gives it the dtype uint64, float64 or object,
  depending on the values, and \<open>torch.tensor(..., dtype=torch.int64)\<close> then raises or
  casts the array element by element. Which of the two, and the cast values, depend on the
  values and on the versions of the two libraries.
\<close>

record 'p env =
  read_image :: "string \<Rightarrow> error + 8 word array3"
  augmentations :: "8 word array3 \<Rightarrow> 8 word array3 \<times> (8 word array2 \<Rightarrow> 8 word array2)"
  mask_decode :: "'p \<Rightarrow> int \<Rightarrow> int \<Rightarrow> error + decoded"
  int64_cast :: "int list \<Rightarrow> error + (int \<Rightarrow> 64 word)"

section \<open>Dict access\<close>

definition get_key :: "'p dict \<Rightarrow> string \<Rightarrow> error + 'p pyval" where
  "get_key d k = (case d k of None \<Rightarrow> Inl (KeyError k) | Some v \<Rightarrow> Inr v)"

definition get_str :: "'p dict \<Rightarrow> string \<Rightarrow> error + string" where
  "get_str d k =
     (case get_key d k of Inl e \<Rightarrow> Inl e
      | Inr v \<Rightarrow> (case v of PStr s \<Rightarrow> Inr s | _ \<Rightarrow> Inl TypeError))"

definition get_int :: "'p dict \<Rightarrow> string \<Rightarrow> error + int" where
  "get_int d k =
     (case get_key d k of Inl e \<Rightarrow> Inl e
      | Inr v \<Rightarrow> (case v of PInt n \<Rightarrow> Inr n | _ \<Rightarrow> Inl TypeError))"

definition get_payloads :: "'p dict \<Rightarrow> string \<Rightarrow> error + 'p list" where
  "get_payloads d k =
     (case get_key d k of Inl e \<Rightarrow> Inl e
      | Inr v \<Rightarrow> (case v of PPayloads ps \<Rightarrow> Inr ps | _ \<Rightarrow> Inl TypeError))"

definition get_labels :: "'p dict \<Rightarrow> string \<Rightarrow> error + int list" where
  "get_labels d k =
     (case get_key d k of Inl e \<Rightarrow> Inl e
      | Inr v \<Rightarrow> (case v of PLabels ls \<Rightarrow> Inr ls | _ \<Rightarrow> Inl TypeError))"

section \<open>Array operations\<close>

text \<open>\<open>image.transpose(2, 0, 1)\<close>: channel first.\<close>

definition transpose_2_0_1 :: "'a array3 \<Rightarrow> 'a array3" where
  "transpose_2_0_1 a =
     (case shape3 a of (h, w, c) \<Rightarrow>
        \<lparr>shape3 = (c, h, w), at3 = (\<lambda>k i j. at3 a i j k)\<rparr>)"

text \<open>
  \<open>np.sum(m, axis=2)\<close> on a uint8 array accumulates in uint64; on a two-dimensional
  array axis 2 is out of bounds.
\<close>

definition sum_axis2 :: "8 word array3 \<Rightarrow> 64 word array2" where
  "sum_axis2 a =
     (case shape3 a of (h, w, n) \<Rightarrow>
        \<lparr>shape2 = (h, w), at2 = (\<lambda>i j. sum_list (map (\<lambda>k. ucast (at3 a i j k)) [0..<n]))\<rparr>)"

definition np_sum_axis2 :: "decoded \<Rightarrow> error + 64 word array2" where
  "np_sum_axis2 m = (case m of Dec2 a \<Rightarrow> Inl AxisError | Dec3 a \<Rightarrow> Inr (sum_axis2 a))"

text \<open>\<open>m.astype(np.uint8)\<close>: the low byte of every element.\<close>

definition astype_uint8 :: "64 word array2 \<Rightarrow> 8 word array2" where
  "astype_uint8 a = \<lparr>shape2 = shape2 a, at2 = (\<lambda>i j. ucast (at2 a i j))\<rparr>"

text \<open>
  The merge the spec describes: sum across parts, then every pixel with value \<open>> 0\<close>
  becomes 1. Stated from the spec's words, to compare with the code's merge.
\<close>

definition merge_binarized_spec :: "8 word array3 \<Rightarrow> 8 word array2" where
  "merge_binarized_spec a =
     (case shape3 a of (h, w, n) \<Rightarrow>
        \<lparr>shape2 = (h, w),
         at2 = (\<lambda>i j. if 0 < sum_list (map (\<lambda>k. unat (at3 a i j k)) [0..<n]) then 1 else 0)\<rparr>)"

text \<open>\<open>torch.stack\<close> of the masks: all must have the shape of the first.\<close>

definition torch_stack :: "8 word array2 list \<Rightarrow> error + 8 word array3" where
  "torch_stack xs =
     (case xs of [] \<Rightarrow> Inl StackError
      | x # _ \<Rightarrow>
         if list_all (\<lambda>y. shape2 y = shape2 x) xs
         then Inr \<lparr>shape3 = (length xs, fst (shape2 x), snd (shape2 x)),
                   at3 = (\<lambda>n i j. at2 (xs ! n) i j)\<rparr>
         else Inl StackError)"

text \<open>\<open>BitMasks(tensor)\<close> keeps the tensor converted to bool: nonzero is foreground.\<close>

definition BitMasks :: "8 word array3 \<Rightarrow> bool array3" where
  "BitMasks t = \<lparr>shape3 = shape3 t, at3 = (\<lambda>n i j. at3 t n i j \<noteq> 0)\<rparr>"

text \<open>\<open>torch.zeros((0, h, w))\<close>.\<close>

definition torch_zeros3 :: "nat \<times> nat \<times> nat \<Rightarrow> bool array3" where
  "torch_zeros3 s = \<lparr>shape3 = s, at3 = (\<lambda>n i j. False)\<rparr>"

text \<open>
  \<open>torch.tensor(np.array(classes), dtype=torch.int64)\<close>. Labels that all lie in the
  int64 range (the empty list among them) make an int64 array, or an empty one, and the
  tensor holds them as they are. Otherwise the outcome is the libraries' \<open>cast\<close>: an
  exception, or a tensor of the same length with every element cast.
\<close>

definition torch_tensor_int64 ::
  "(int list \<Rightarrow> error + (int \<Rightarrow> 64 word)) \<Rightarrow> int list \<Rightarrow> error + 64 word list" where
  "torch_tensor_int64 cast cs =
     (if list_all (\<lambda>c. - (2 ^ 63) \<le> c \<and> c < 2 ^ 63) cs
      then Inr (map word_of_int cs)
      else (case cast cs of Inl e \<Rightarrow> Inl e | Inr f \<Rightarrow> Inr (map f cs)))"

section \<open>Framework functions outside the source file\<close>

text \<open>
  Modelled from the spec: \<open>utils.check_image_size\<close> belongs to the detection framework
  and is not part of the source file. The spec: "validate loaded dimensions match any
  declared dimensions in the record (fails with SizeMismatch otherwise)". A declared
  \<open>width\<close> or \<open>height\<close> that is not the decoded image's is a mismatch.
\<close>

definition check_image_size :: "'p dict \<Rightarrow> 8 word array3 \<Rightarrow> error + unit" where
  "check_image_size d img =
     (case shape3 img of (h, w, c) \<Rightarrow>
        if (case d ''width'' of None \<Rightarrow> False | Some v \<Rightarrow> v \<noteq> PInt (int w))
           \<or> (case d ''height'' of None \<Rightarrow> False | Some v \<Rightarrow> v \<noteq> PInt (int h))
        then Inl SizeMismatch else Inr ())"

text \<open>
  Modelled from the spec: \<open>BitMasks.get_bounding_boxes\<close> belongs to the detection
  framework and is not part of the source file. The spec: "the box equals
  (min_col, min_row, max_col+1, max_row+1) of nonzero mask pixels", and an all-zero mask
  has "a box of zero area". The columns and the rows that hold a foreground pixel are
  listed in ascending order; the box runs from the first to one past the last, and stays
  all zeros when there is none.
\<close>

definition mask_box :: "bool array3 \<Rightarrow> nat \<Rightarrow> box" where
  "mask_box t idx =
     (case shape3 t of (n, h, w) \<Rightarrow>
        let x = filter (\<lambda>j. list_ex (\<lambda>i. at3 t idx i j) [0..<h]) [0..<w];
            y = filter (\<lambda>i. list_ex (\<lambda>j. at3 t idx i j) [0..<w]) [0..<h]
        in if 0 < length x \<and> 0 < length y
           then (hd x, hd y, last x + 1, last y + 1)
           else (0, 0, 0, 0))"

definition get_bounding_boxes :: "bool array3 \<Rightarrow> box list" where
  "get_bounding_boxes t = map (mask_box t) [0..<fst (shape3 t)]"

definition box_area :: "box \<Rightarrow> nat" where
  "box_area b = (case b of (x0, y0, x1, y1) \<Rightarrow> (x1 - x0) * (y1 - y0))"

section \<open>The mapper\<close>

text \<open>
  The loop over \<open>zip(dataset_dict['instance'], dataset_dict['labels'])\<close>, with the two
  accumulators \<open>masks\<close> and \<open>classes\<close>.
\<close>

fun collect ::
  "'p env \<Rightarrow> 'p dict \<Rightarrow> (8 word array2 \<Rightarrow> 8 word array2) \<Rightarrow> ('p \<times> int) list \<Rightarrow>
   8 word array2 list \<Rightarrow> int list \<Rightarrow> error + (8 word array2 list \<times> int list)" where
  "collect env d transforms [] masks classes = Inr (masks, classes)"
| "collect env d transforms ((inst, label) # rest) masks classes =
     (case get_int d ''height'' of Inl e \<Rightarrow> Inl e | Inr hh \<Rightarrow>
      case get_int d ''width'' of Inl e \<Rightarrow> Inl e | Inr ww \<Rightarrow>
      case mask_decode env inst hh ww of Inl e \<Rightarrow> Inl e | Inr m \<Rightarrow>
      case np_sum_axis2 m of Inl e \<Rightarrow> Inl e | Inr s \<Rightarrow>
        collect env d transforms rest
          (masks @ [transforms (astype_uint8 s)]) (classes @ [label]))"

text \<open>Lines 190 to 202: the \<open>Instances\<close> built from the accumulators.\<close>

definition make_instances ::
  "'p env \<Rightarrow> nat \<times> nat \<Rightarrow> 8 word array2 list \<Rightarrow> int list \<Rightarrow> error + instances" where
  "make_instances env image_shape masks classes =
     (case torch_tensor_int64 (int64_cast env) classes of Inl e \<Rightarrow> Inl e | Inr cls \<Rightarrow>
      if length masks = 0
      then Inr \<lparr>image_size = image_shape, gt_classes = cls,
                gt_masks = torch_zeros3 (0, fst image_shape, snd image_shape),
                gt_boxes = []\<rparr>
      else (case torch_stack masks of Inl e \<Rightarrow> Inl e | Inr t \<Rightarrow>
              Inr \<lparr>image_size = image_shape, gt_classes = cls,
                   gt_masks = BitMasks t,
                   gt_boxes = get_bounding_boxes (BitMasks t)\<rparr>))"

text \<open>
  Dicts live in a heap, addressed by position; the caller holds the address of its
  record. \<open>copy.deepcopy\<close> allocates a new dict with the same contents (the nested lists
  and arrays are values of the dict, so they are copied with it).
\<close>

definition deepcopy :: "'p dict list \<Rightarrow> nat \<Rightarrow> 'p dict list \<times> nat" where
  "deepcopy heap a = (heap @ [heap ! a], length heap)"

text \<open>Lines 164 and 165: the image is read and its size validated.\<close>

definition load_image :: "'p env \<Rightarrow> 'p dict \<Rightarrow> error + 8 word array3" where
  "load_image env d =
     (case get_str d ''file_name'' of Inl e \<Rightarrow> Inl e | Inr f \<Rightarrow>
      case read_image env f of Inl e \<Rightarrow> Inl e | Inr img \<Rightarrow>
      case check_image_size d img of Inl e \<Rightarrow> Inl e | Inr u \<Rightarrow> Inr img)"

text \<open>
  Line 178 and the header of the loop at line 181: the assertion on \<open>'instance'\<close>, then
  the two sequences that \<open>zip\<close> pairs.
\<close>

definition annotation_pairs :: "'p dict \<Rightarrow> error + ('p \<times> int) list" where
  "annotation_pairs d =
     (case get_payloads d ''instance'' of Inl e \<Rightarrow> Inl e | Inr insts \<Rightarrow>
      if \<not> 0 < length insts then Inl InvariantViolation else
      case get_labels d ''labels'' of Inl e \<Rightarrow> Inl e | Inr labels \<Rightarrow>
        Inr (zip insts labels))"

text \<open>Lines 178 to 202: from the dict to the \<open>Instances\<close>.\<close>

definition build_instances ::
  "'p env \<Rightarrow> 'p dict \<Rightarrow> (8 word array2 \<Rightarrow> 8 word array2) \<Rightarrow> nat \<times> nat \<Rightarrow> error + instances" where
  "build_instances env d transforms image_shape =
     (case annotation_pairs d of Inl e \<Rightarrow> Inl e | Inr pairs \<Rightarrow>
      case collect env d transforms pairs [] [] of Inl e \<Rightarrow> Inl e | Inr (masks, classes) \<Rightarrow>
        make_instances env image_shape masks classes)"

text \<open>
  \<open>LVISInferenceMapperWithGT.__call__\<close>: the heap after the call, and the exception
  raised or the address of the returned dict. The two assignments to keys of the dict
  are writes to the copy.
\<close>

definition call :: "'p env \<Rightarrow> 'p dict list \<Rightarrow> nat \<Rightarrow> 'p dict list \<times> (error + nat)" where
  "call env heap a =
     (case deepcopy heap a of (h1, c) \<Rightarrow>
      case load_image env (h1 ! c) of Inl e \<Rightarrow> (h1, Inl e) | Inr img0 \<Rightarrow>
      case augmentations env img0 of (img, transforms) \<Rightarrow>
      let image_shape = (fst (shape3 img), fst (snd (shape3 img)));
          h2 = h1[c := (h1 ! c)(''image'' \<mapsto> PTensor (transpose_2_0_1 img))]
      in
      case build_instances env (h2 ! c) transforms image_shape of
        Inl e \<Rightarrow> (h2, Inl e)
      | Inr inst \<Rightarrow> (h2[c := (h2 ! c)(''instances'' \<mapsto> PInstances inst)], Inr c))"

text \<open>
  What a caller holding only the record \<open>d\<close> observes of the \<open>'instances'\<close> after the
  call: the exception raised, or the aggregate stored in the returned dict.
\<close>

definition mapped_instances :: "'p env \<Rightarrow> 'p dict \<Rightarrow> error + instances" where
  "mapped_instances env d =
     (case call env [d] 0 of
        (heap', Inl e) \<Rightarrow> Inl e
      | (heap', Inr r) \<Rightarrow>
          (case (heap' ! r) ''instances'' of
             Some (PInstances inst) \<Rightarrow> Inr inst
           | _ \<Rightarrow> Inl (KeyError ''instances'')))"

section \<open>A concrete mapper and records\<close>

text \<open>
  A mapper over a file system with one readable two-by-two image, the identity
  augmentation, and a codec for three payloads: payload 0 has two parts, the left and
  the right column; payload 1 decodes to one empty part; payload 2 to the single pixel
  in row 1, column 1. Its tensor library rejects a list with a label that no 64-bit
  integer type holds (an object array) and casts any other list by wrap-around.
\<close>

definition ex_image :: "8 word array3" where
  "ex_image = \<lparr>shape3 = (2, 2, 3), at3 = (\<lambda>i j k. 0)\<rparr>"

definition ex_decode :: "nat \<Rightarrow> int \<Rightarrow> int \<Rightarrow> error + decoded" where
  "ex_decode p hh ww =
     (if p = 0
      then Inr (Dec3 \<lparr>shape3 = (nat hh, nat ww, 2), at3 = (\<lambda>i j k. if j = k then 1 else 0)\<rparr>)
      else if p = 1
      then Inr (Dec3 \<lparr>shape3 = (nat hh, nat ww, 1), at3 = (\<lambda>i j k. 0)\<rparr>)
      else if p = 2
      then Inr (Dec3 \<lparr>shape3 = (nat hh, nat ww, 1),
                     at3 = (\<lambda>i j k. if i = 1 \<and> j = 1 then 1 else 0)\<rparr>)
      else Inl DecodeError)"

definition ex_env :: "nat env" where
  "ex_env =
     \<lparr>read_image = (\<lambda>f. if f = ''a.jpg'' then Inr ex_image else Inl IOError),
      augmentations = (\<lambda>img. (img, \<lambda>m. m)),
      mask_decode = ex_decode,
      int64_cast =
        (\<lambda>cs. if list_ex (\<lambda>c. c < - (2 ^ 63) \<or> 2 ^ 64 \<le> c) cs
              then Inl TypeError else Inr word_of_int)\<rparr>"

definition ex_record :: "nat dict" where
  "ex_record =
     [''file_name'' \<mapsto> PStr ''a.jpg'', ''height'' \<mapsto> PInt 2, ''width'' \<mapsto> PInt 2,
      ''instance'' \<mapsto> PPayloads [2, 1], ''labels'' \<mapsto> PLabels [5, 7]]"

text \<open>Two parts that both cover the one pixel of a one-by-one mask.\<close>

definition overlapping_parts :: "8 word array3" where
  "overlapping_parts = \<lparr>shape3 = (1, 1, 2), at3 = (\<lambda>i j k. 1)\<rparr>"

text \<open>Two parts of a one-by-two mask: part \<open>k\<close> covers column \<open>k\<close>.\<close>

definition disjoint_parts :: "8 word array3" where
  "disjoint_parts = \<lparr>shape3 = (1, 2, 2), at3 = (\<lambda>i j k. if j = k then 1 else 0)\<rparr>"

section \<open>The merge of the part masks\<close>

lemma unat_sum_list_word:
  "unat (sum_list (map f ks) :: 'a::len word) = sum_list (map (\<lambda>k. unat (f k)) ks) mod 2 ^ LENGTH('a)"
proof (induction ks)
  case Nil show ?case by simp
next
  case (Cons k ks)
  have "unat (f k + sum_list (map f ks)) = (unat (f k) + unat (sum_list (map f ks))) mod 2 ^ LENGTH('a)"
    by (simp add: unat_word_ariths)
  also have "\<dots> = (unat (f k) + sum_list (map (\<lambda>k. unat (f k)) ks) mod 2 ^ LENGTH('a)) mod 2 ^ LENGTH('a)"
    using Cons by simp
  also have "\<dots> = (unat (f k) + sum_list (map (\<lambda>k. unat (f k)) ks)) mod 2 ^ LENGTH('a)"
    by (simp add: mod_add_right_eq)
  finally show ?case by simp
qed

lemma merged_pixel:
  assumes "shape3 a = (h, w, n)"
  shows "unat (at2 (astype_uint8 (sum_axis2 a)) i j)
         = sum_list (map (\<lambda>k. unat (at3 a i j k)) [0..<n]) mod 256"
proof -
  let ?S = "sum_list (map (\<lambda>k. unat (at3 a i j k)) [0..<n])"
  have up: "unat (ucast x :: 64 word) = unat x" for x :: "8 word"
  proof -
    have "unat x < 2 ^ 64" using unsigned_less [of x, where 'a = nat] by simp
    then show ?thesis by (simp add: unsigned_ucast_eq take_bit_nat_eq_self)
  qed
  have s: "unat (sum_list (map (\<lambda>k. ucast (at3 a i j k)) [0..<n]) :: 64 word) = ?S mod 2 ^ 64"
    using unat_sum_list_word [where f = "\<lambda>k. (ucast (at3 a i j k) :: 64 word)" and ks = "[0..<n]"]
    by (simp add: up)
  have "unat (at2 (astype_uint8 (sum_axis2 a)) i j)
        = unat (sum_list (map (\<lambda>k. ucast (at3 a i j k)) [0..<n]) :: 64 word) mod 2 ^ 8"
    using assms by (simp add: astype_uint8_def sum_axis2_def unsigned_ucast_eq take_bit_eq_mod)
  also have "\<dots> = (?S mod 2 ^ 64) mod 2 ^ 8" by (simp only: s)
  also have "\<dots> = ?S mod 2 ^ 8" by (rule mod_mod_cancel) simp
  finally show ?thesis by simp
qed

section \<open>What a successful call went through\<close>

lemma call_success:
  assumes "call env heap a = (heap', Inr r)"
  shows "\<exists>img0 img transforms inst.
           load_image env (heap ! a) = Inr img0 \<and>
           augmentations env img0 = (img, transforms) \<and>
           build_instances env ((heap ! a)(''image'' \<mapsto> PTensor (transpose_2_0_1 img))) transforms
             (fst (shape3 img), fst (snd (shape3 img))) = Inr inst \<and>
           r = length heap \<and>
           heap' = heap @ [(heap ! a)(''image'' \<mapsto> PTensor (transpose_2_0_1 img),
                                      ''instances'' \<mapsto> PInstances inst)]"
  using assms
  by (auto simp: call_def deepcopy_def Let_def split: sum.splits prod.splits)

lemma call_failure:
  assumes "call env heap a = (heap', Inl e)"
  shows "heap' = heap @ [heap ! a] \<or>
         (\<exists>t. heap' = heap @ [(heap ! a)(''image'' \<mapsto> PTensor t)])"
  using assms
  by (auto simp: call_def deepcopy_def Let_def split: sum.splits prod.splits)

lemma build_instances_success:
  assumes "build_instances env d tf shp = Inr inst"
  shows "\<exists>insts labels masks classes.
           d ''instance'' = Some (PPayloads insts) \<and> insts \<noteq> [] \<and>
           d ''labels'' = Some (PLabels labels) \<and>
           collect env d tf (zip insts labels) [] [] = Inr (masks, classes) \<and>
           make_instances env shp masks classes = Inr inst"
  using assms
  by (auto simp: build_instances_def annotation_pairs_def get_payloads_def get_labels_def get_key_def
      split: sum.splits option.splits pyval.splits if_splits)

lemma collect_result:
  assumes "collect env d tf ps ms cs = Inr (masks, classes)"
  shows "\<exists>new. masks = ms @ new \<and> classes = cs @ map snd ps \<and> length new = length ps \<and>
           (\<forall>n<length ps. \<exists>hh ww a.
               get_int d ''height'' = Inr hh \<and> get_int d ''width'' = Inr ww \<and>
               mask_decode env (fst (ps ! n)) hh ww = Inr (Dec3 a) \<and>
               new ! n = tf (astype_uint8 (sum_axis2 a)))"
  using assms
proof (induction ps arbitrary: ms cs)
  case Nil
  then show ?case by simp
next
  case (Cons p ps)
  obtain inst label where p: "p = (inst, label)" by (cases p)
  from Cons.prems p obtain hh ww a where
    h: "get_int d ''height'' = Inr hh" and w: "get_int d ''width'' = Inr ww"
    and dec: "mask_decode env inst hh ww = Inr (Dec3 a)"
    and rest: "collect env d tf ps (ms @ [tf (astype_uint8 (sum_axis2 a))]) (cs @ [label]) = Inr (masks, classes)"
    by (auto simp: np_sum_axis2_def split: sum.splits decoded.splits)
  from Cons.IH [OF rest] obtain new where
    m: "masks = (ms @ [tf (astype_uint8 (sum_axis2 a))]) @ new"
    and c: "classes = (cs @ [label]) @ map snd ps"
    and l: "length new = length ps"
    and each: "\<forall>n<length ps. \<exists>hh ww a.
               get_int d ''height'' = Inr hh \<and> get_int d ''width'' = Inr ww \<and>
               mask_decode env (fst (ps ! n)) hh ww = Inr (Dec3 a) \<and>
               new ! n = tf (astype_uint8 (sum_axis2 a))"
    by blast
  let ?new = "tf (astype_uint8 (sum_axis2 a)) # new"
  have "\<forall>n<length (p # ps). \<exists>hh ww a.
               get_int d ''height'' = Inr hh \<and> get_int d ''width'' = Inr ww \<and>
               mask_decode env (fst ((p # ps) ! n)) hh ww = Inr (Dec3 a) \<and>
               ?new ! n = tf (astype_uint8 (sum_axis2 a))"
  proof (intro allI impI)
    fix n assume "n < length (p # ps)"
    then show "\<exists>hh ww a.
               get_int d ''height'' = Inr hh \<and> get_int d ''width'' = Inr ww \<and>
               mask_decode env (fst ((p # ps) ! n)) hh ww = Inr (Dec3 a) \<and>
               ?new ! n = tf (astype_uint8 (sum_axis2 a))"
      using h w dec each p by (cases n) auto
  qed
  moreover have "masks = ms @ ?new" using m by simp
  moreover have "classes = cs @ map snd (p # ps)" using c p by simp
  moreover have "length ?new = length (p # ps)" using l by simp
  ultimately show ?case by blast
qed

lemma collect_dict_cong:
  assumes "d ''height'' = d' ''height''" "d ''width'' = d' ''width''"
  shows "collect env d tf ps ms cs = collect env d' tf ps ms cs"
proof (induction ps arbitrary: ms cs)
  case Nil show ?case by simp
next
  case (Cons p ps)
  obtain inst label where p: "p = (inst, label)" by (cases p)
  have "get_int d ''height'' = get_int d' ''height''" "get_int d ''width'' = get_int d' ''width''"
    using assms by (simp_all add: get_int_def get_key_def)
  then show ?case using Cons p by (simp split: sum.splits)
qed

lemma make_instances_shape:
  assumes "make_instances env shp masks classes = Inr inst"
  shows "fst (shape3 (gt_masks inst)) = length masks \<and>
         length (gt_classes inst) = length classes \<and>
         (list_all (\<lambda>c. - (2 ^ 63) \<le> c \<and> c < 2 ^ 63) classes \<longrightarrow>
            gt_classes inst = map word_of_int classes) \<and>
         length (gt_boxes inst) = length masks \<and>
         image_size inst = shp"
  using assms
  by (auto simp: make_instances_def torch_tensor_int64_def torch_stack_def torch_zeros3_def
      BitMasks_def get_bounding_boxes_def split: sum.splits if_splits list.splits)

lemma make_instances_empty:
  assumes "make_instances env shp [] classes = Inr inst"
  shows "shape3 (gt_masks inst) = (0, fst shp, snd shp) \<and> gt_boxes inst = []"
  using assms
  by (auto simp: make_instances_def torch_zeros3_def split: sum.splits)

lemma torch_stack_success:
  assumes "torch_stack xs = Inr t"
  shows "xs \<noteq> [] \<and> (\<forall>y\<in>set xs. shape2 y = shape2 (hd xs)) \<and>
         t = \<lparr>shape3 = (length xs, fst (shape2 (hd xs)), snd (shape2 (hd xs))),
              at3 = (\<lambda>n i j. at2 (xs ! n) i j)\<rparr>"
  using assms
  by (cases xs) (auto simp: torch_stack_def list_all_iff split: if_splits)

lemma make_instances_nonempty:
  assumes "make_instances env shp masks classes = Inr inst" "masks \<noteq> []"
  shows "\<exists>t. torch_stack masks = Inr t \<and> gt_masks inst = BitMasks t \<and>
             gt_boxes inst = get_bounding_boxes (BitMasks t)"
  using assms
  by (auto simp: make_instances_def split: sum.splits if_splits)

lemma make_instances_rows:
  assumes mk: "make_instances env shp masks classes = Inr inst" and n: "n < length masks"
  shows "gt_boxes inst ! n = mask_box (gt_masks inst) n \<and>
         (\<forall>i j. at3 (gt_masks inst) n i j \<longleftrightarrow> at2 (masks ! n) i j \<noteq> 0) \<and>
         shape3 (gt_masks inst) = (length masks, fst (shape2 (masks ! n)), snd (shape2 (masks ! n)))"
proof -
  from n have ne: "masks \<noteq> []" by auto
  from make_instances_nonempty [OF mk ne] obtain t where
    st: "torch_stack masks = Inr t" and gm: "gt_masks inst = BitMasks t"
    and gb: "gt_boxes inst = get_bounding_boxes (BitMasks t)" by blast
  note ts = torch_stack_success [OF st]
  from ts have same: "\<forall>y\<in>set masks. shape2 y = shape2 (hd masks)" by blast
  from ts have st3: "shape3 t = (length masks, fst (shape2 (hd masks)), snd (shape2 (hd masks)))"
    by (metis array3.select_convs(1))
  from ts have at: "at3 t = (\<lambda>n i j. at2 (masks ! n) i j)"
    by (metis array3.select_convs(2))
  have sh: "shape2 (masks ! n) = shape2 (hd masks)" using same n by simp
  have b: "gt_boxes inst ! n = mask_box (gt_masks inst) n"
    using n by (simp add: gb gm get_bounding_boxes_def BitMasks_def st3)
  have m: "\<forall>i j. at3 (gt_masks inst) n i j \<longleftrightarrow> at2 (masks ! n) i j \<noteq> 0"
    by (simp add: gm BitMasks_def at)
  have s: "shape3 (gt_masks inst) = (length masks, fst (shape2 (masks ! n)), snd (shape2 (masks ! n)))"
    by (simp add: gm BitMasks_def st3 sh)
  from b m s show ?thesis by blast
qed

section \<open>Bounding boxes\<close>

lemma sorted_hd_is_Min:
  fixes xs :: "nat list"
  assumes "sorted xs" "xs \<noteq> []"
  shows "hd xs = Min (set xs)"
proof -
  obtain y ys where xs: "xs = y # ys" using assms(2) by (cases xs) auto
  have "Min (set xs) = y"
    using assms(1) xs by (intro Min_eqI) auto
  then show ?thesis using xs by simp
qed

lemma sorted_last_is_Max:
  fixes xs :: "nat list"
  assumes "sorted xs" "xs \<noteq> []"
  shows "last xs = Max (set xs)"
proof -
  have "Max (set xs) = last xs"
  proof (rule Max_eqI)
    show "finite (set xs)" by simp
    show "last xs \<in> set xs" using assms(2) by simp
    fix y assume "y \<in> set xs"
    then obtain i where i: "i < length xs" "xs ! i = y" by (auto simp: in_set_conv_nth)
    have "xs ! i \<le> xs ! (length xs - 1)"
      using assms(1) i(1) by (intro sorted_nth_mono) auto
    then show "y \<le> last xs" using i(2) assms(2) by (simp add: last_conv_nth)
  qed
  then show ?thesis by simp
qed

lemma mask_box_tight:
  assumes sh: "shape3 t = (N, H, W)" and i0: "i0 < H" and j0: "j0 < W" and px: "at3 t n i0 j0"
  shows "mask_box t n =
           (Min {j. j < W \<and> (\<exists>i<H. at3 t n i j)},
            Min {i. i < H \<and> (\<exists>j<W. at3 t n i j)},
            Max {j. j < W \<and> (\<exists>i<H. at3 t n i j)} + 1,
            Max {i. i < H \<and> (\<exists>j<W. at3 t n i j)} + 1)"
proof -
  let ?x = "filter (\<lambda>j. list_ex (\<lambda>i. at3 t n i j) [0..<H]) [0..<W]"
  let ?y = "filter (\<lambda>i. list_ex (\<lambda>j. at3 t n i j) [0..<W]) [0..<H]"
  have sx: "set ?x = {j. j < W \<and> (\<exists>i<H. at3 t n i j)}"
    by (auto simp: list_ex_iff)
  have sy: "set ?y = {i. i < H \<and> (\<exists>j<W. at3 t n i j)}"
    by (auto simp: list_ex_iff)
  have "j0 \<in> set ?x" using i0 j0 px unfolding sx by blast
  then have nx: "?x \<noteq> []" by (metis empty_iff empty_set)
  have "i0 \<in> set ?y" using i0 j0 px unfolding sy by blast
  then have ny: "?y \<noteq> []" by (metis empty_iff empty_set)
  have ox: "sorted ?x" and oy: "sorted ?y" by (simp_all add: sorted_filter [where f = id, simplified])
  have "mask_box t n = (hd ?x, hd ?y, last ?x + 1, last ?y + 1)"
    using sh nx ny by (simp add: mask_box_def Let_def)
  also have "hd ?x = Min (set ?x)" by (rule sorted_hd_is_Min [OF ox nx])
  also have "last ?x = Max (set ?x)" by (rule sorted_last_is_Max [OF ox nx])
  also have "hd ?y = Min (set ?y)" by (rule sorted_hd_is_Min [OF oy ny])
  also have "last ?y = Max (set ?y)" by (rule sorted_last_is_Max [OF oy ny])
  finally show ?thesis by (simp only: sx sy)
qed

lemma mask_box_empty:
  assumes sh: "shape3 t = (N, H, W)" and z: "\<forall>i<H. \<forall>j<W. \<not> at3 t n i j"
  shows "mask_box t n = (0, 0, 0, 0)"
proof -
  have "filter (\<lambda>j. list_ex (\<lambda>i. at3 t n i j) [0..<H]) [0..<W] = []"
    using z by (auto simp: filter_empty_conv list_ex_iff)
  then show ?thesis using sh by (simp add: mask_box_def Let_def)
qed

section \<open>C2: the merged mask\<close>

lemma binary_disjoint_sum:
  fixes f :: "nat \<Rightarrow> 8 word"
  assumes bin: "\<forall>k<n. f k = 0 \<or> f k = 1"
    and dis: "\<forall>k<n. \<forall>k'<n. f k \<noteq> 0 \<and> f k' \<noteq> 0 \<longrightarrow> k = k'"
  shows "sum_list (map (\<lambda>k. unat (f k)) [0..<n]) = (if \<exists>k<n. f k \<noteq> 0 then 1 else 0)"
proof -
  have conv: "sum_list (map (\<lambda>k. unat (f k)) [0..<n]) = (\<Sum>k\<in>{0..<n}. unat (f k))"
    by (simp add: interv_sum_list_conv_sum_set_nat)
  show ?thesis
  proof (cases "\<exists>k<n. f k \<noteq> 0")
    case False
    then have "(\<Sum>k\<in>{0..<n}. unat (f k)) = 0" by simp
    then have "sum_list (map (\<lambda>k. unat (f k)) [0..<n]) = 0" by (simp only: conv)
    then show ?thesis by (simp only: if_not_P [OF False])
  next
    case True
    then obtain k0 where k0: "k0 < n" "f k0 \<noteq> 0" by blast
    then have one: "f k0 = 1" using bin by blast
    have others: "\<forall>k\<in>{0..<n} - {k0}. unat (f k) = 0"
    proof
      fix k assume k: "k \<in> {0..<n} - {k0}"
      then have "f k = 0" using dis k0 by auto
      then show "unat (f k) = 0" by simp
    qed
    have "(\<Sum>k\<in>{0..<n}. unat (f k)) = unat (f k0) + (\<Sum>k\<in>{0..<n} - {k0}. unat (f k))"
      using k0(1) by (intro sum.remove) auto
    also have "\<dots> = 1" using one others by simp
    finally have "sum_list (map (\<lambda>k. unat (f k)) [0..<n]) = 1" by (simp only: conv)
    then show ?thesis by (simp only: if_P [OF True])
  qed
qed

text \<open>
  C2, as the code has it. For a payload decoded to parts of shape (h, w, n), the merged
  mask has shape (h, w) and every pixel is the sum of the parts' values at that pixel
  reduced modulo 256 (the uint8 cast); the code does not binarize the sum. Where the
  parts are binary and at most one of them covers the pixel, the merged pixel is 0 or 1,
  it is foreground exactly when some part is (the union of the parts), and it agrees with
  the sum-then-binarize merge of the spec.
\<close>

theorem merged_mask_is_sum_mod_256:
  assumes sh: "shape3 a = (h, w, n)"
  shows "np_sum_axis2 (Dec3 a) = Inr (sum_axis2 a) \<and>
         shape2 (astype_uint8 (sum_axis2 a)) = (h, w) \<and>
         unat (at2 (astype_uint8 (sum_axis2 a)) i j)
           = sum_list (map (\<lambda>k. unat (at3 a i j k)) [0..<n]) mod 256 \<and>
         ((\<forall>k<n. at3 a i j k = 0 \<or> at3 a i j k = 1) \<and>
          (\<forall>k<n. \<forall>k'<n. at3 a i j k \<noteq> 0 \<and> at3 a i j k' \<noteq> 0 \<longrightarrow> k = k') \<longrightarrow>
            (at2 (astype_uint8 (sum_axis2 a)) i j = 0 \<or> at2 (astype_uint8 (sum_axis2 a)) i j = 1) \<and>
            (at2 (astype_uint8 (sum_axis2 a)) i j \<noteq> 0 \<longleftrightarrow> (\<exists>k<n. at3 a i j k \<noteq> 0)) \<and>
            at2 (astype_uint8 (sum_axis2 a)) i j = at2 (merge_binarized_spec a) i j)"
proof -
  let ?m = "at2 (astype_uint8 (sum_axis2 a)) i j"
  let ?S = "sum_list (map (\<lambda>k. unat (at3 a i j k)) [0..<n])"
  have px: "unat ?m = ?S mod 256" by (rule merged_pixel [OF sh])
  have shp: "shape2 (astype_uint8 (sum_axis2 a)) = (h, w)"
    using sh by (simp add: astype_uint8_def sum_axis2_def)
  have np: "np_sum_axis2 (Dec3 a) = Inr (sum_axis2 a)" by (simp add: np_sum_axis2_def)
  have spec: "at2 (merge_binarized_spec a) i j = (if 0 < ?S then 1 else 0)"
    using sh by (simp add: merge_binarized_spec_def)
  have dis: "(?m = 0 \<or> ?m = 1) \<and> (?m \<noteq> 0 \<longleftrightarrow> (\<exists>k<n. at3 a i j k \<noteq> 0)) \<and>
             ?m = at2 (merge_binarized_spec a) i j"
    if bin: "\<forall>k<n. at3 a i j k = 0 \<or> at3 a i j k = 1"
      and d: "\<forall>k<n. \<forall>k'<n. at3 a i j k \<noteq> 0 \<and> at3 a i j k' \<noteq> 0 \<longrightarrow> k = k'"
  proof (cases "\<exists>k<n. at3 a i j k \<noteq> 0")
    case True
    then have S: "?S = 1" using binary_disjoint_sum [OF bin d] by (simp only: if_True)
    have "unat ?m = 1" "at2 (merge_binarized_spec a) i j = 1" unfolding px spec S by simp_all
    then have "?m = 1" "at2 (merge_binarized_spec a) i j = 1" by (simp_all add: word_unat_eq_iff)
    with True show ?thesis by simp
  next
    case False
    then have S: "?S = 0" using binary_disjoint_sum [OF bin d] by (simp only: if_False)
    have "unat ?m = 0" "at2 (merge_binarized_spec a) i j = 0" unfolding px spec S by simp_all
    then have "?m = 0" "at2 (merge_binarized_spec a) i j = 0" by (simp_all add: word_unat_eq_iff)
    with False show ?thesis by simp
  qed
  from np shp px dis show ?thesis by blast
qed

text \<open>
  The theorem at the two disjoint parts of \<open>disjoint_parts\<close>, pixel (0, 1): covered by
  part 1 only, merged to 1.
\<close>

theorem merged_mask_is_sum_mod_256_witness:
  "shape3 disjoint_parts = (1, 2, 2) \<and>
   at2 (astype_uint8 (sum_axis2 disjoint_parts)) 0 1 = 1 \<and>
   at2 (astype_uint8 (sum_axis2 disjoint_parts)) 0 1 = at2 (merge_binarized_spec disjoint_parts) 0 1"
proof -
  have s: "shape3 disjoint_parts = (1, 2, 2)" by (simp add: disjoint_parts_def)
  have b: "\<forall>k<2. at3 disjoint_parts 0 1 k = 0 \<or> at3 disjoint_parts 0 1 k = 1"
    by (simp add: disjoint_parts_def)
  have d: "\<forall>k<2. \<forall>k'<2. at3 disjoint_parts 0 1 k \<noteq> 0 \<and> at3 disjoint_parts 0 1 k' \<noteq> 0 \<longrightarrow> k = k'"
    by (simp add: disjoint_parts_def)
  have e: "\<exists>k<2. at3 disjoint_parts 0 1 k \<noteq> 0"
    by (rule exI [of _ 1]) (simp add: disjoint_parts_def)
  from merged_mask_is_sum_mod_256 [OF s, of 0 1] b d e s show ?thesis by blast
qed

text \<open>
  C2 as stated fails: where two parts overlap, the merged pixel holds 2, not the 1 of the
  binarized merge, so a merged mask can hold values other than 0 and 1.
\<close>

theorem merged_mask_not_binarized:
  "at2 (astype_uint8 (sum_axis2 overlapping_parts)) 0 0 = 2 \<and>
   at2 (merge_binarized_spec overlapping_parts) 0 0 = 1"
  by (simp add: overlapping_parts_def astype_uint8_def sum_axis2_def merge_binarized_spec_def
      upt_rec [of _ "numeral _"] upt_rec [of _ "Suc _"])

section \<open>C5 and C8: rows and classes, and the caller's record\<close>

text \<open>
  The definitions a run of the concrete mapper unfolds.
\<close>

lemmas ex_defs = ex_env_def ex_record_def ex_decode_def ex_image_def call_def deepcopy_def
  load_image_def get_str_def get_key_def get_int_def get_payloads_def get_labels_def
  check_image_size_def build_instances_def annotation_pairs_def make_instances_def
  torch_tensor_int64_def torch_stack_def np_sum_axis2_def sum_axis2_def astype_uint8_def
  BitMasks_def transpose_2_0_1_def torch_zeros3_def

lemma ex_call_returns: "snd (call ex_env [ex_record] 0) = Inr 1"
  by (simp add: ex_defs)

lemma ex_call_pair: "call ex_env [ex_record] 0 = (fst (call ex_env [ex_record] 0), Inr 1)"
  by (simp add: prod_eq_iff ex_call_returns)

text \<open>
  The dict a successful call returns: the copy of the argument with the two keys set.
\<close>

lemma call_success_dict:
  assumes "call env heap a = (heap', Inr r)"
  shows "\<exists>img0 img transforms inst.
           load_image env (heap ! a) = Inr img0 \<and>
           augmentations env img0 = (img, transforms) \<and>
           build_instances env ((heap ! a)(''image'' \<mapsto> PTensor (transpose_2_0_1 img))) transforms
             (fst (shape3 img), fst (snd (shape3 img))) = Inr inst \<and>
           heap' ! r = (heap ! a)(''image'' \<mapsto> PTensor (transpose_2_0_1 img),
                                  ''instances'' \<mapsto> PInstances inst)"
proof -
  from call_success [OF assms] obtain img0 img transforms inst where
    l: "load_image env (heap ! a) = Inr img0" and au: "augmentations env img0 = (img, transforms)"
    and b: "build_instances env ((heap ! a)(''image'' \<mapsto> PTensor (transpose_2_0_1 img))) transforms
             (fst (shape3 img), fst (snd (shape3 img))) = Inr inst"
    and r: "r = length heap"
    and h: "heap' = heap @ [(heap ! a)(''image'' \<mapsto> PTensor (transpose_2_0_1 img),
                                      ''instances'' \<mapsto> PInstances inst)]"
    by blast
  have "heap' ! r = (heap ! a)(''image'' \<mapsto> PTensor (transpose_2_0_1 img),
                                  ''instances'' \<mapsto> PInstances inst)"
    unfolding r h by simp
  with l au b show ?thesis by blast
qed

text \<open>
  C5. Whenever the mapper returns a record, its \<open>'instances'\<close> hold as many mask rows as
  class entries: \<open>masks.shape[0] == classes.shape[0]\<close>.
\<close>

theorem masks_rows_equal_classes:
  assumes "call env heap a = (heap', Inr r)"
  shows "\<exists>I. (heap' ! r) ''instances'' = Some (PInstances I) \<and>
             fst (shape3 (gt_masks I)) = length (gt_classes I)"
proof -
  from call_success_dict [OF assms] obtain img tf shp inst where
    b: "build_instances env ((heap ! a)(''image'' \<mapsto> PTensor (transpose_2_0_1 img))) tf shp = Inr inst"
    and d: "heap' ! r = (heap ! a)(''image'' \<mapsto> PTensor (transpose_2_0_1 img),
                                  ''instances'' \<mapsto> PInstances inst)"
    by blast
  from build_instances_success [OF b] obtain insts labels masks classes where
    c: "collect env ((heap ! a)(''image'' \<mapsto> PTensor (transpose_2_0_1 img))) tf (zip insts labels) [] []
          = Inr (masks, classes)"
    and m: "make_instances env shp masks classes = Inr inst"
    by blast
  from collect_result [OF c] have "length masks = length classes" by auto
  with make_instances_shape [OF m] have "fst (shape3 (gt_masks inst)) = length (gt_classes inst)"
    by simp
  moreover have "(heap' ! r) ''instances'' = Some (PInstances inst)" by (simp add: d)
  ultimately show ?thesis by blast
qed

text \<open>
  The theorem at the concrete record, which the concrete mapper maps.
\<close>

theorem masks_rows_equal_classes_witness:
  "snd (call ex_env [ex_record] 0) = Inr 1 \<and>
   (\<exists>I. (fst (call ex_env [ex_record] 0) ! 1) ''instances'' = Some (PInstances I) \<and>
        fst (shape3 (gt_masks I)) = length (gt_classes I))"
  using masks_rows_equal_classes [OF ex_call_pair] ex_call_returns by blast

text \<open>
  C8. The call changes no dict that existed before it: the heap afterwards is the old heap
  with one new dict, the deep copy, appended. The caller's record, at address \<open>a\<close>, holds
  what it held, and a returned record is the new dict, never the argument. The heap of
  dicts is all the state of the model, so there is no other effect.
\<close>

theorem caller_record_unchanged:
  assumes "a < length heap"
  shows "fst (call env heap a) ! a = heap ! a \<and>
         take (length heap) (fst (call env heap a)) = heap \<and>
         length (fst (call env heap a)) = length heap + 1 \<and>
         (\<forall>r. snd (call env heap a) = Inr r \<longrightarrow> r = length heap \<and> r \<noteq> a)"
proof -
  obtain heap' res where c: "call env heap a = (heap', res)" by (cases "call env heap a")
  have "\<exists>d. heap' = heap @ [d]"
  proof (cases res)
    case (Inl e)
    with c call_failure [of env heap a heap' e] show ?thesis by blast
  next
    case (Inr r)
    with c call_success [of env heap a heap' r] show ?thesis by blast
  qed
  then obtain d where h: "heap' = heap @ [d]" by blast
  have r: "r = length heap" if "res = Inr r" for r
    using that c call_success [of env heap a heap' r] by blast
  show ?thesis using assms r by (auto simp: c h nth_append)
qed

text \<open>
  The theorem at the heap holding the concrete record alone.
\<close>

theorem caller_record_unchanged_witness:
  "(0::nat) < length [ex_record] \<and> fst (call ex_env [ex_record] 0) ! 0 = ex_record \<and>
   snd (call ex_env [ex_record] 0) = Inr 1 \<and>
   take 1 (fst (call ex_env [ex_record] 0)) = [ex_record]"
  using caller_record_unchanged [of 0 "[ex_record]" ex_env] ex_call_returns by simp

section \<open>C1, C9 and C3: the failures and the keys of the output\<close>

text \<open>
  A failure of lines 164 and 165 leaves the call before anything is written to the copy.
\<close>

lemma call_load_failure:
  assumes "load_image env (heap ! a) = Inl e"
  shows "call env heap a = (heap @ [heap ! a], Inl e)"
  using assms by (simp add: call_def deepcopy_def)

lemma call_after_load:
  assumes "load_image env (heap ! a) = Inr img0" "augmentations env img0 = (img, tf)"
  shows "snd (call env heap a) =
           (case build_instances env ((heap ! a)(''image'' \<mapsto> PTensor (transpose_2_0_1 img))) tf
                   (fst (shape3 img), fst (snd (shape3 img))) of
              Inl e \<Rightarrow> Inl e | Inr inst \<Rightarrow> Inr (length heap))"
  using assms by (simp add: call_def deepcopy_def Let_def split: sum.splits)

lemma build_instances_empty_instance:
  assumes "d ''instance'' = Some (PPayloads [])"
  shows "build_instances env d tf shp = Inl InvariantViolation"
  using assms by (simp add: build_instances_def annotation_pairs_def get_payloads_def get_key_def)

text \<open>
  C1, as the code has it. For a record whose \<open>'instance'\<close> sequence is empty the mapper
  returns no record: the call ends in an exception. The exception is the
  \<open>InvariantViolation\<close> of the assertion whenever the image is read and passes the
  size check; the assertion stands at line 178, after the image is loaded, so a failure
  of the loading is raised first.
\<close>

theorem empty_instance_no_output:
  assumes "(heap ! a) ''instance'' = Some (PPayloads [])"
  shows "(\<exists>e. snd (call env heap a) = Inl e) \<and>
         (\<forall>f img0. (heap ! a) ''file_name'' = Some (PStr f) \<and> read_image env f = Inr img0 \<and>
                    check_image_size (heap ! a) img0 = Inr () \<longrightarrow>
                    snd (call env heap a) = Inl InvariantViolation)"
proof -
  have inv: "snd (call env heap a) = Inl InvariantViolation"
    if l: "load_image env (heap ! a) = Inr img0" for img0
  proof -
    obtain img tf where au: "augmentations env img0 = (img, tf)"
      by (cases "augmentations env img0")
    have "build_instances env ((heap ! a)(''image'' \<mapsto> PTensor (transpose_2_0_1 img))) tf
            (fst (shape3 img), fst (snd (shape3 img))) = Inl InvariantViolation"
      by (rule build_instances_empty_instance) (use assms in simp)
    with call_after_load [OF l au] show ?thesis by simp
  qed
  have first: "\<exists>e. snd (call env heap a) = Inl e"
  proof (cases "load_image env (heap ! a)")
    case (Inl e)
    from call_load_failure [OF this] show ?thesis by simp
  next
    case (Inr img0)
    from inv [OF this] show ?thesis by blast
  qed
  have second: "snd (call env heap a) = Inl InvariantViolation"
    if "(heap ! a) ''file_name'' = Some (PStr f) \<and> read_image env f = Inr img0 \<and>
        check_image_size (heap ! a) img0 = Inr ()" for f img0
  proof -
    from that have "load_image env (heap ! a) = Inr img0"
      by (simp add: load_image_def get_str_def get_key_def)
    from inv [OF this] show ?thesis .
  qed
  from first second show ?thesis by blast
qed

text \<open>
  The theorem at the concrete record with its \<open>'instance'\<close> emptied: the image is read
  and the assertion fails.
\<close>

theorem empty_instance_no_output_witness:
  "([ex_record(''instance'' \<mapsto> PPayloads [])] ! 0) ''instance'' = Some (PPayloads []) \<and>
   read_image ex_env ''a.jpg'' = Inr ex_image \<and>
   snd (call ex_env [ex_record(''instance'' \<mapsto> PPayloads [])] 0) = Inl InvariantViolation"
proof -
  have i: "([ex_record(''instance'' \<mapsto> PPayloads [])] ! 0) ''instance'' = Some (PPayloads [])"
    by simp
  have f: "([ex_record(''instance'' \<mapsto> PPayloads [])] ! 0) ''file_name'' = Some (PStr ''a.jpg'')"
    by (simp add: ex_record_def)
  have r: "read_image ex_env ''a.jpg'' = Inr ex_image" by (simp add: ex_env_def)
  have c: "check_image_size ([ex_record(''instance'' \<mapsto> PPayloads [])] ! 0) ex_image = Inr ()"
    by (simp add: check_image_size_def ex_record_def ex_image_def)
  from empty_instance_no_output [OF i, of ex_env] f r c i show ?thesis by blast
qed

text \<open>
  C1 as stated fails: a record with an empty \<open>'instance'\<close> whose file cannot be read
  raises \<open>IOError\<close>, not \<open>InvariantViolation\<close>.
\<close>

theorem empty_instance_unreadable_image:
  "(ex_record(''file_name'' \<mapsto> PStr ''missing.jpg'', ''instance'' \<mapsto> PPayloads [])) ''instance''
     = Some (PPayloads []) \<and>
   snd (call ex_env [ex_record(''file_name'' \<mapsto> PStr ''missing.jpg'', ''instance'' \<mapsto> PPayloads [])] 0)
     = Inl IOError"
  by (simp add: ex_defs)

text \<open>
  C9. When the image is read and a declared \<open>height\<close> or \<open>width\<close> is not the decoded
  image's, the call raises \<open>SizeMismatch\<close> and returns no record. The only change of the
  heap is the untouched copy, and the result is the same whatever the augmentations and the
  mask codec are: neither is reached.
\<close>

theorem size_mismatch_raised:
  assumes "(heap ! a) ''file_name'' = Some (PStr f)" and "read_image env f = Inr img"
    and "shape3 img = (H, W, C)"
    and "(heap ! a) ''height'' = Some (PInt hh)" and "(heap ! a) ''width'' = Some (PInt ww)"
    and "hh \<noteq> int H \<or> ww \<noteq> int W"
  shows "call (env\<lparr>augmentations := aug, mask_decode := dec\<rparr>) heap a
           = (heap @ [heap ! a], Inl SizeMismatch)"
proof -
  have "check_image_size (heap ! a) img = Inl SizeMismatch"
    using assms by (auto simp: check_image_size_def)
  then have "load_image (env\<lparr>augmentations := aug, mask_decode := dec\<rparr>) (heap ! a) = Inl SizeMismatch"
    using assms(1,2) by (simp add: load_image_def get_str_def get_key_def)
  from call_load_failure [OF this] show ?thesis .
qed

text \<open>
  The theorem at the concrete record with a declared height of 3 for the image of height 2.
\<close>

theorem size_mismatch_raised_witness:
  "read_image ex_env ''a.jpg'' = Inr ex_image \<and> shape3 ex_image = (2, 2, 3) \<and>
   ([ex_record(''height'' \<mapsto> PInt 3)] ! 0) ''height'' = Some (PInt 3) \<and>
   call ex_env [ex_record(''height'' \<mapsto> PInt 3)] 0
     = ([ex_record(''height'' \<mapsto> PInt 3), ex_record(''height'' \<mapsto> PInt 3)], Inl SizeMismatch)"
proof -
  have f: "([ex_record(''height'' \<mapsto> PInt 3)] ! 0) ''file_name'' = Some (PStr ''a.jpg'')"
    by (simp add: ex_record_def)
  have r: "read_image ex_env ''a.jpg'' = Inr ex_image" by (simp add: ex_env_def)
  have s: "shape3 ex_image = (2, 2, 3)" by (simp add: ex_image_def)
  have h: "([ex_record(''height'' \<mapsto> PInt 3)] ! 0) ''height'' = Some (PInt 3)" by simp
  have w: "([ex_record(''height'' \<mapsto> PInt 3)] ! 0) ''width'' = Some (PInt 2)"
    by (simp add: ex_record_def)
  have ne: "(3::int) \<noteq> int 2 \<or> (2::int) \<noteq> int 2" by simp
  have e: "ex_env\<lparr>augmentations := augmentations ex_env, mask_decode := mask_decode ex_env\<rparr> = ex_env"
    by simp
  from size_mismatch_raised [OF f r s h w ne, where aug = "augmentations ex_env"
      and dec = "mask_decode ex_env"] r s h
  show ?thesis by (simp add: e)
qed

text \<open>
  C3, as the code has it. The record a successful call returns carries the derived
  \<open>'image'\<close> tensor (the augmented image, channel first) and the \<open>'instances'\<close>
  aggregate, and it still holds the raw annotation fields: \<open>'instance'\<close> and \<open>'labels'\<close>
  are present with the values of the input. Nothing in \<open>__call__\<close> removes a key.
\<close>

theorem output_keeps_raw_annotations:
  assumes "call env heap a = (heap', Inr r)"
  shows "(\<exists>insts. (heap ! a) ''instance'' = Some (PPayloads insts) \<and>
                  (heap' ! r) ''instance'' = Some (PPayloads insts)) \<and>
         (\<exists>labels. (heap ! a) ''labels'' = Some (PLabels labels) \<and>
                   (heap' ! r) ''labels'' = Some (PLabels labels)) \<and>
         (\<exists>img0 img tf. load_image env (heap ! a) = Inr img0 \<and>
                   augmentations env img0 = (img, tf) \<and>
                   (heap' ! r) ''image'' = Some (PTensor (transpose_2_0_1 img))) \<and>
         (\<exists>I. (heap' ! r) ''instances'' = Some (PInstances I))"
proof -
  from call_success_dict [OF assms] obtain img0 img tf shp inst where
    l: "load_image env (heap ! a) = Inr img0" and au: "augmentations env img0 = (img, tf)"
    and b: "build_instances env ((heap ! a)(''image'' \<mapsto> PTensor (transpose_2_0_1 img))) tf shp = Inr inst"
    and d: "heap' ! r = (heap ! a)(''image'' \<mapsto> PTensor (transpose_2_0_1 img),
                                  ''instances'' \<mapsto> PInstances inst)"
    by blast
  from build_instances_success [OF b] obtain insts labels where
    i: "((heap ! a)(''image'' \<mapsto> PTensor (transpose_2_0_1 img))) ''instance'' = Some (PPayloads insts)"
    and lb: "((heap ! a)(''image'' \<mapsto> PTensor (transpose_2_0_1 img))) ''labels'' = Some (PLabels labels)"
    by blast
  from i have i0: "(heap ! a) ''instance'' = Some (PPayloads insts)" by simp
  from lb have l0: "(heap ! a) ''labels'' = Some (PLabels labels)" by simp
  have "(heap' ! r) ''instance'' = Some (PPayloads insts)" using i0 by (simp add: d)
  moreover have "(heap' ! r) ''labels'' = Some (PLabels labels)" using l0 by (simp add: d)
  moreover have "(heap' ! r) ''image'' = Some (PTensor (transpose_2_0_1 img))" by (simp add: d)
  moreover have "(heap' ! r) ''instances'' = Some (PInstances inst)" by (simp add: d)
  ultimately show ?thesis using i0 l0 l au by blast
qed

text \<open>
  The theorem at the concrete record.
\<close>

theorem output_keeps_raw_annotations_witness:
  "snd (call ex_env [ex_record] 0) = Inr 1 \<and>
   (\<exists>insts. ([ex_record] ! 0) ''instance'' = Some (PPayloads insts) \<and>
            (fst (call ex_env [ex_record] 0) ! 1) ''instance'' = Some (PPayloads insts)) \<and>
   (\<exists>I. (fst (call ex_env [ex_record] 0) ! 1) ''instances'' = Some (PInstances I))"
  using output_keeps_raw_annotations [OF ex_call_pair] ex_call_returns by blast

text \<open>
  C3 as stated fails: the record returned for the concrete record holds the keys
  \<open>'instance'\<close> and \<open>'labels'\<close>.
\<close>

theorem raw_annotations_in_output:
  "snd (call ex_env [ex_record] 0) = Inr 1 \<and>
   (fst (call ex_env [ex_record] 0) ! 1) ''instance'' = Some (PPayloads [2, 1]) \<and>
   (fst (call ex_env [ex_record] 0) ! 1) ''labels'' = Some (PLabels [5, 7])"
  by (simp add: ex_defs)

section \<open>The instances of a mapped record\<close>

text \<open>
  The observation in terms of the stages of the call.
\<close>

lemma mapped_instances_eq:
  "mapped_instances env d =
     (case load_image env d of
        Inl e \<Rightarrow> Inl e
      | Inr img0 \<Rightarrow>
          build_instances env (d(''image'' \<mapsto> PTensor (transpose_2_0_1 (fst (augmentations env img0)))))
            (snd (augmentations env img0))
            (fst (shape3 (fst (augmentations env img0))), fst (snd (shape3 (fst (augmentations env img0))))))"
  by (simp add: mapped_instances_def call_def deepcopy_def Let_def split: sum.splits prod.splits)

lemma annotation_pairs_zip:
  assumes "d ''instance'' = Some (PPayloads insts)" "d ''labels'' = Some (PLabels labels)"
  shows "annotation_pairs d = (if insts = [] then Inl InvariantViolation else Inr (zip insts labels))"
  using assms by (simp add: annotation_pairs_def get_payloads_def get_labels_def get_key_def)

text \<open>
  A successful call went through the loop once for each of the first
  \<open>min (len instance) (len labels)\<close> pairs: mask \<open>n\<close> is the transform handle applied to
  the merged decoded mask of payload \<open>n\<close>, and the classes are the labels of those pairs.
\<close>

lemma mapped_instances_rows:
  assumes ok: "mapped_instances env d = Inr inst"
    and i: "d ''instance'' = Some (PPayloads insts)" and l: "d ''labels'' = Some (PLabels labels)"
  shows "\<exists>img0 img tf masks.
           load_image env d = Inr img0 \<and> augmentations env img0 = (img, tf) \<and>
           insts \<noteq> [] \<and>
           length masks = min (length insts) (length labels) \<and>
           make_instances env (fst (shape3 img), fst (snd (shape3 img))) masks
             (take (length masks) labels) = Inr inst \<and>
           (\<forall>n<length masks. \<exists>hh ww p.
               d ''height'' = Some (PInt hh) \<and> d ''width'' = Some (PInt ww) \<and>
               mask_decode env (insts ! n) hh ww = Inr (Dec3 p) \<and>
               masks ! n = tf (astype_uint8 (sum_axis2 p)))"
proof -
  from ok obtain img0 where ld: "load_image env d = Inr img0"
    by (auto simp: mapped_instances_eq split: sum.splits)
  obtain img tf where au: "augmentations env img0 = (img, tf)" by (cases "augmentations env img0")
  let ?d = "d(''image'' \<mapsto> PTensor (transpose_2_0_1 img))"
  let ?shp = "(fst (shape3 img), fst (snd (shape3 img)))"
  from ok ld au have b: "build_instances env ?d tf ?shp = Inr inst"
    by (simp add: mapped_instances_eq)
  have i': "?d ''instance'' = Some (PPayloads insts)" and l': "?d ''labels'' = Some (PLabels labels)"
    using i l by simp_all
  from build_instances_success [OF b] i' l' obtain masks classes where
    ne: "insts \<noteq> []"
    and c: "collect env ?d tf (zip insts labels) [] [] = Inr (masks, classes)"
    and m: "make_instances env ?shp masks classes = Inr inst"
    by auto
  from collect_result [OF c] obtain new where
    mn: "masks = [] @ new" and cl: "classes = [] @ map snd (zip insts labels)"
    and ln: "length new = length (zip insts labels)"
    and each: "\<forall>n<length (zip insts labels). \<exists>hh ww p.
               get_int ?d ''height'' = Inr hh \<and> get_int ?d ''width'' = Inr ww \<and>
               mask_decode env (fst (zip insts labels ! n)) hh ww = Inr (Dec3 p) \<and>
               new ! n = tf (astype_uint8 (sum_axis2 p))"
    by blast
  have len: "length masks = min (length insts) (length labels)" using mn ln by simp
  have cls: "classes = take (length masks) labels"
    using cl len by (simp add: map_snd_zip_take)
  have rows: "\<forall>n<length masks. \<exists>hh ww p.
               d ''height'' = Some (PInt hh) \<and> d ''width'' = Some (PInt ww) \<and>
               mask_decode env (insts ! n) hh ww = Inr (Dec3 p) \<and>
               masks ! n = tf (astype_uint8 (sum_axis2 p))"
  proof (intro allI impI)
    fix n assume n: "n < length masks"
    then have nz: "n < length (zip insts labels)" using len by simp
    with each obtain hh ww p where
      h: "get_int ?d ''height'' = Inr hh" and w: "get_int ?d ''width'' = Inr ww"
      and dc: "mask_decode env (fst (zip insts labels ! n)) hh ww = Inr (Dec3 p)"
      and nw: "new ! n = tf (astype_uint8 (sum_axis2 p))" by blast
    from h have h': "d ''height'' = Some (PInt hh)"
      by (auto simp: get_int_def get_key_def split: option.splits pyval.splits)
    from w have w': "d ''width'' = Some (PInt ww)"
      by (auto simp: get_int_def get_key_def split: option.splits pyval.splits)
    from nz have "fst (zip insts labels ! n) = insts ! n" by simp
    with dc h' w' nw mn show "\<exists>hh ww p.
               d ''height'' = Some (PInt hh) \<and> d ''width'' = Some (PInt ww) \<and>
               mask_decode env (insts ! n) hh ww = Inr (Dec3 p) \<and>
               masks ! n = tf (astype_uint8 (sum_axis2 p))" by auto
  qed
  from ld au ne len m cls rows show ?thesis by blast
qed

section \<open>C4 and C6: boxes and rows\<close>

text \<open>
  The instances of the concrete record: two rows of two by two; row 0 is the single pixel
  of payload 2, row 1 the empty mask of payload 1.
\<close>

lemma ex_mapped:
  "\<exists>I. mapped_instances ex_env ex_record = Inr I \<and> shape3 (gt_masks I) = (2, 2, 2) \<and>
       (\<forall>i j. at3 (gt_masks I) 0 i j = (i = 1 \<and> j = 1)) \<and>
       (\<forall>i j. \<not> at3 (gt_masks I) 1 i j)"
  by (simp add: mapped_instances_def ex_defs)

lemma mapped_instances_annotations:
  assumes "mapped_instances env d = Inr I"
  shows "\<exists>insts labels. d ''instance'' = Some (PPayloads insts) \<and> d ''labels'' = Some (PLabels labels)"
proof -
  from assms obtain img0 where ld: "load_image env d = Inr img0"
    by (auto simp: mapped_instances_eq split: sum.splits)
  obtain img tf where au: "augmentations env img0 = (img, tf)" by (cases "augmentations env img0")
  from assms ld au obtain shp where
    b: "build_instances env (d(''image'' \<mapsto> PTensor (transpose_2_0_1 img))) tf shp = Inr I"
    by (simp add: mapped_instances_eq)
  from build_instances_success [OF b] obtain insts labels where
    "(d(''image'' \<mapsto> PTensor (transpose_2_0_1 img))) ''instance'' = Some (PPayloads insts)"
    "(d(''image'' \<mapsto> PTensor (transpose_2_0_1 img))) ''labels'' = Some (PLabels labels)"
    by blast
  then show ?thesis by simp
qed

text \<open>
  C4. In the instances of a mapped record there is one box for every mask row, and the
  box of a row is the tight box of that row:
  \<open>(min_col, min_row, max_col + 1, max_row + 1)\<close> over the row's nonzero pixels, and
  (0, 0, 0, 0) for a row that has none. The row is the transformed mask: the transform
  handle applied to the merged decoded mask of the payload at the same position, nonzero
  read as foreground. So the box is computed from the mask; the record holds no declared
  box that could be taken instead.
\<close>

theorem boxes_tight_around_masks:
  assumes ok: "mapped_instances env d = Inr I"
    and sh: "shape3 (gt_masks I) = (N, H, W)" and n: "n < N"
  shows "length (gt_boxes I) = N \<and>
         ((\<exists>i<H. \<exists>j<W. at3 (gt_masks I) n i j) \<longrightarrow>
          gt_boxes I ! n =
            (Min {j. j < W \<and> (\<exists>i<H. at3 (gt_masks I) n i j)},
             Min {i. i < H \<and> (\<exists>j<W. at3 (gt_masks I) n i j)},
             Max {j. j < W \<and> (\<exists>i<H. at3 (gt_masks I) n i j)} + 1,
             Max {i. i < H \<and> (\<exists>j<W. at3 (gt_masks I) n i j)} + 1)) \<and>
         ((\<forall>i<H. \<forall>j<W. \<not> at3 (gt_masks I) n i j) \<longrightarrow> gt_boxes I ! n = (0, 0, 0, 0)) \<and>
         (\<exists>img0 insts hh ww p.
            load_image env d = Inr img0 \<and> d ''instance'' = Some (PPayloads insts) \<and>
            d ''height'' = Some (PInt hh) \<and> d ''width'' = Some (PInt ww) \<and>
            mask_decode env (insts ! n) hh ww = Inr (Dec3 p) \<and>
            (\<forall>i j. at3 (gt_masks I) n i j
                     = (at2 (snd (augmentations env img0) (astype_uint8 (sum_axis2 p))) i j \<noteq> 0)))"
proof -
  from mapped_instances_annotations [OF ok] obtain insts labels where
    i: "d ''instance'' = Some (PPayloads insts)" and l: "d ''labels'' = Some (PLabels labels)"
    by blast
  from mapped_instances_rows [OF ok i l] obtain img0 img tf masks where
    ld: "load_image env d = Inr img0" and au: "augmentations env img0 = (img, tf)"
    and m: "make_instances env (fst (shape3 img), fst (snd (shape3 img))) masks
             (take (length masks) labels) = Inr I"
    and rows: "\<forall>n<length masks. \<exists>hh ww p.
               d ''height'' = Some (PInt hh) \<and> d ''width'' = Some (PInt ww) \<and>
               mask_decode env (insts ! n) hh ww = Inr (Dec3 p) \<and>
               masks ! n = tf (astype_uint8 (sum_axis2 p))"
    by blast
  from make_instances_shape [OF m] sh have len: "length masks = N" "length (gt_boxes I) = N"
    by simp_all
  with n have nm: "n < length masks" by simp
  from make_instances_rows [OF m nm] have
    bx: "gt_boxes I ! n = mask_box (gt_masks I) n"
    and bits: "\<forall>i j. at3 (gt_masks I) n i j \<longleftrightarrow> at2 (masks ! n) i j \<noteq> 0"
    by blast+
  from rows nm obtain hh ww p where
    h: "d ''height'' = Some (PInt hh)" and w: "d ''width'' = Some (PInt ww)"
    and dc: "mask_decode env (insts ! n) hh ww = Inr (Dec3 p)"
    and mn: "masks ! n = tf (astype_uint8 (sum_axis2 p))" by blast
  have tf: "snd (augmentations env img0) = tf" using au by simp
  have link: "\<forall>i j. at3 (gt_masks I) n i j
                     = (at2 (snd (augmentations env img0) (astype_uint8 (sum_axis2 p))) i j \<noteq> 0)"
    using bits by (simp add: mn tf)
  have tight: "gt_boxes I ! n =
           (Min {j. j < W \<and> (\<exists>i<H. at3 (gt_masks I) n i j)},
            Min {i. i < H \<and> (\<exists>j<W. at3 (gt_masks I) n i j)},
            Max {j. j < W \<and> (\<exists>i<H. at3 (gt_masks I) n i j)} + 1,
            Max {i. i < H \<and> (\<exists>j<W. at3 (gt_masks I) n i j)} + 1)"
    if "\<exists>i<H. \<exists>j<W. at3 (gt_masks I) n i j"
  proof -
    from that obtain i0 j0 where px: "i0 < H" "j0 < W" "at3 (gt_masks I) n i0 j0" by blast
    from mask_box_tight [OF sh px] bx show ?thesis by simp
  qed
  have none: "gt_boxes I ! n = (0, 0, 0, 0)" if "\<forall>i<H. \<forall>j<W. \<not> at3 (gt_masks I) n i j"
    using mask_box_empty [OF sh that] bx by simp
  from len(2) tight none ld i h w dc link show ?thesis by blast
qed

text \<open>
  The theorem at row 0 of the concrete record: the pixel in row 1, column 1 has the box
  (1, 1, 2, 2).
\<close>

theorem boxes_tight_around_masks_witness:
  "\<exists>I. mapped_instances ex_env ex_record = Inr I \<and> shape3 (gt_masks I) = (2, 2, 2) \<and>
       at3 (gt_masks I) 0 1 1 \<and> gt_boxes I ! 0 = (1, 1, 2, 2)"
proof -
  from ex_mapped obtain I where
    ok: "mapped_instances ex_env ex_record = Inr I" and sh: "shape3 (gt_masks I) = (2, 2, 2)"
    and r0: "\<forall>i j. at3 (gt_masks I) 0 i j = (i = 1 \<and> j = 1)" by blast
  from r0 have px: "at3 (gt_masks I) 0 1 1" by simp
  have c: "{j. j < (2::nat) \<and> (\<exists>i<2. at3 (gt_masks I) 0 i j)} = {1}" using r0 by auto
  have r: "{i. i < (2::nat) \<and> (\<exists>j<2. at3 (gt_masks I) 0 i j)} = {1}" using r0 by auto
  have n: "(0::nat) < 2" by simp
  have ex: "\<exists>i<2. \<exists>j<2. at3 (gt_masks I) 0 i j" using r0 by auto
  from boxes_tight_around_masks [OF ok sh n] ex have "gt_boxes I ! 0 =
           (Min {j. j < 2 \<and> (\<exists>i<2. at3 (gt_masks I) 0 i j)},
            Min {i. i < 2 \<and> (\<exists>j<2. at3 (gt_masks I) 0 i j)},
            Max {j. j < 2 \<and> (\<exists>i<2. at3 (gt_masks I) 0 i j)} + 1,
            Max {i. i < 2 \<and> (\<exists>j<2. at3 (gt_masks I) 0 i j)} + 1)" by blast
  then have "gt_boxes I ! 0 = (1, 1, 2, 2)" unfolding c r by simp
  with ok sh px show ?thesis by blast
qed

text \<open>
  C6. Nothing is dropped: the instances of a mapped record have one mask row, one class
  entry and one box for each of the \<open>min (len instance) (len labels)\<close> pairs the loop
  processed. Class entry \<open>n\<close> is label \<open>n\<close> (for labels in the int64 range), mask row
  \<open>n\<close> is the transformed merged mask of payload \<open>n\<close>, whatever it holds, and a row
  with no foreground pixel has the box (0, 0, 0, 0), of area zero.
\<close>

theorem empty_masks_are_kept:
  assumes ok: "mapped_instances env d = Inr I"
    and i: "d ''instance'' = Some (PPayloads insts)" and l: "d ''labels'' = Some (PLabels labels)"
    and sh: "shape3 (gt_masks I) = (N, H, W)"
  shows "N = min (length insts) (length labels) \<and>
         length (gt_classes I) = N \<and> length (gt_boxes I) = N \<and>
         (list_all (\<lambda>c. - (2 ^ 63) \<le> c \<and> c < 2 ^ 63) (take N labels) \<longrightarrow>
            (\<forall>n<N. gt_classes I ! n = word_of_int (labels ! n))) \<and>
         (\<exists>img0. load_image env d = Inr img0 \<and>
            (\<forall>n<N. \<exists>hh ww p.
               d ''height'' = Some (PInt hh) \<and> d ''width'' = Some (PInt ww) \<and>
               mask_decode env (insts ! n) hh ww = Inr (Dec3 p) \<and>
               (\<forall>i j. at3 (gt_masks I) n i j
                     = (at2 (snd (augmentations env img0) (astype_uint8 (sum_axis2 p))) i j \<noteq> 0)))) \<and>
         (\<forall>n<N. (\<forall>i<H. \<forall>j<W. \<not> at3 (gt_masks I) n i j) \<longrightarrow>
                 gt_boxes I ! n = (0, 0, 0, 0) \<and> box_area (gt_boxes I ! n) = 0)"
proof -
  from mapped_instances_rows [OF ok i l] obtain img0 img tf masks where
    ld: "load_image env d = Inr img0" and au: "augmentations env img0 = (img, tf)"
    and lm: "length masks = min (length insts) (length labels)"
    and m: "make_instances env (fst (shape3 img), fst (snd (shape3 img))) masks
             (take (length masks) labels) = Inr I"
    and rows: "\<forall>n<length masks. \<exists>hh ww p.
               d ''height'' = Some (PInt hh) \<and> d ''width'' = Some (PInt ww) \<and>
               mask_decode env (insts ! n) hh ww = Inr (Dec3 p) \<and>
               masks ! n = tf (astype_uint8 (sum_axis2 p))"
    by blast
  note ms = make_instances_shape [OF m]
  from ms sh have len: "length masks = N" by simp
  have N: "N = min (length insts) (length labels)" using len lm by simp
  have lc: "length (gt_classes I) = N" using ms len N by simp
  have lb: "length (gt_boxes I) = N" using ms len by simp
  have cls: "\<forall>n<N. gt_classes I ! n = word_of_int (labels ! n)"
    if "list_all (\<lambda>c. - (2 ^ 63) \<le> c \<and> c < 2 ^ 63) (take N labels)"
  proof -
    from ms that len have "gt_classes I = map word_of_int (take N labels)" by simp
    then show ?thesis using N by simp
  qed
  have tf: "snd (augmentations env img0) = tf" using au by simp
  have each: "\<forall>n<N. \<exists>hh ww p.
               d ''height'' = Some (PInt hh) \<and> d ''width'' = Some (PInt ww) \<and>
               mask_decode env (insts ! n) hh ww = Inr (Dec3 p) \<and>
               (\<forall>i j. at3 (gt_masks I) n i j
                     = (at2 (snd (augmentations env img0) (astype_uint8 (sum_axis2 p))) i j \<noteq> 0))"
  proof (intro allI impI)
    fix n assume "n < N"
    then have nm: "n < length masks" using len by simp
    from make_instances_rows [OF m nm] have
      bits: "\<forall>i j. at3 (gt_masks I) n i j \<longleftrightarrow> at2 (masks ! n) i j \<noteq> 0" by blast
    from rows nm obtain hh ww p where
      h: "d ''height'' = Some (PInt hh)" and w: "d ''width'' = Some (PInt ww)"
      and dc: "mask_decode env (insts ! n) hh ww = Inr (Dec3 p)"
      and mn: "masks ! n = tf (astype_uint8 (sum_axis2 p))" by blast
    have "\<forall>i j. at3 (gt_masks I) n i j
                     = (at2 (snd (augmentations env img0) (astype_uint8 (sum_axis2 p))) i j \<noteq> 0)"
      using bits by (simp add: mn tf)
    with h w dc show "\<exists>hh ww p.
               d ''height'' = Some (PInt hh) \<and> d ''width'' = Some (PInt ww) \<and>
               mask_decode env (insts ! n) hh ww = Inr (Dec3 p) \<and>
               (\<forall>i j. at3 (gt_masks I) n i j
                     = (at2 (snd (augmentations env img0) (astype_uint8 (sum_axis2 p))) i j \<noteq> 0))"
      by blast
  qed
  have zero: "\<forall>n<N. (\<forall>i<H. \<forall>j<W. \<not> at3 (gt_masks I) n i j) \<longrightarrow>
                 gt_boxes I ! n = (0, 0, 0, 0) \<and> box_area (gt_boxes I ! n) = 0"
  proof (intro allI impI)
    fix n assume "n < N" and z: "\<forall>i<H. \<forall>j<W. \<not> at3 (gt_masks I) n i j"
    then have nm: "n < length masks" using len by simp
    from make_instances_rows [OF m nm] have "gt_boxes I ! n = mask_box (gt_masks I) n" by blast
    with mask_box_empty [OF sh z] have "gt_boxes I ! n = (0, 0, 0, 0)" by simp
    then show "gt_boxes I ! n = (0, 0, 0, 0) \<and> box_area (gt_boxes I ! n) = 0"
      by (simp add: box_area_def)
  qed
  from N lc lb cls ld each zero show ?thesis by blast
qed

text \<open>
  The theorem at the concrete record, whose second payload decodes to an empty mask: its
  row is there, with class 7 and a box of area zero.
\<close>

theorem empty_masks_are_kept_witness:
  "\<exists>I. mapped_instances ex_env ex_record = Inr I \<and> shape3 (gt_masks I) = (2, 2, 2) \<and>
       length (gt_classes I) = 2 \<and> gt_classes I ! 1 = 7 \<and>
       gt_boxes I ! 1 = (0, 0, 0, 0) \<and> box_area (gt_boxes I ! 1) = 0"
proof -
  from ex_mapped obtain I where
    ok: "mapped_instances ex_env ex_record = Inr I" and sh: "shape3 (gt_masks I) = (2, 2, 2)"
    and r1: "\<forall>i j. \<not> at3 (gt_masks I) 1 i j" by blast
  have i: "ex_record ''instance'' = Some (PPayloads [2, 1])"
    and l: "ex_record ''labels'' = Some (PLabels [5, 7])" by (simp_all add: ex_record_def)
  note t = empty_masks_are_kept [OF ok i l sh]
  from t have lc: "length (gt_classes I) = 2" by blast
  from t have "list_all (\<lambda>c. - (2 ^ 63) \<le> c \<and> c < 2 ^ 63) (take 2 [5, 7 :: int]) \<longrightarrow>
            (\<forall>n<2. gt_classes I ! n = word_of_int ([5, 7] ! n))" by blast
  then have c1: "gt_classes I ! 1 = 7" by simp
  from t have "\<forall>n<2. (\<forall>i<2. \<forall>j<2. \<not> at3 (gt_masks I) n i j) \<longrightarrow>
                 gt_boxes I ! n = (0, 0, 0, 0) \<and> box_area (gt_boxes I ! n) = 0" by blast
  moreover have "(1::nat) < 2" by simp
  moreover have "\<forall>i<2. \<forall>j<2. \<not> at3 (gt_masks I) 1 i j" using r1 by simp
  ultimately have "gt_boxes I ! 1 = (0, 0, 0, 0) \<and> box_area (gt_boxes I ! 1) = 0" by blast
  with ok sh lc c1 show ?thesis by blast
qed

section \<open>C7 and C10: the empty batch and sequences of different lengths\<close>

text \<open>
  Writing the \<open>'image'\<close> key changes nothing the later stages read.
\<close>

lemma get_annotations_image:
  "get_payloads (d(''image'' \<mapsto> v)) ''instance'' = get_payloads d ''instance''"
  "get_labels (d(''image'' \<mapsto> v)) ''labels'' = get_labels d ''labels''"
  by (simp_all add: get_payloads_def get_labels_def get_key_def)

lemma annotation_pairs_image:
  "annotation_pairs (d(''image'' \<mapsto> v)) = annotation_pairs d"
  by (simp only: annotation_pairs_def get_annotations_image)

lemma collect_image:
  "collect env (d(''image'' \<mapsto> v)) tf ps ms cs = collect env d tf ps ms cs"
  by (rule collect_dict_cong) simp_all

lemma build_instances_image:
  "build_instances env (d(''image'' \<mapsto> v)) tf shp = build_instances env d tf shp"
  by (simp only: build_instances_def annotation_pairs_image collect_image)

lemma mapped_instances_returns:
  assumes "mapped_instances env d = Inr I"
  shows "snd (call env [d] 0) = Inr 1"
proof -
  obtain h res where c: "call env [d] 0 = (h, res)" by (cases "call env [d] 0")
  from assms c obtain r where r: "res = Inr r"
    by (cases res) (simp_all add: mapped_instances_def)
  from call_success [of env "[d]" 0 h r] c r have "r = 1" by auto
  with c r show ?thesis by simp
qed

text \<open>
  C7. When the image is loaded and augmented (to height \<open>H\<close> and width \<open>W\<close>) and the
  loop ends with no mask accumulated, the call returns a record, not an exception, and its
  instances have a mask tensor of shape \<open>(0, H, W)\<close>, a box tensor of shape \<open>(0, 4)\<close>
  and no class.
\<close>

theorem empty_batch_is_returned:
  assumes ld: "load_image env d = Inr img0" and au: "augmentations env img0 = (img, tf)"
    and shi: "shape3 img = (H, W, C)"
    and ap: "annotation_pairs d = Inr pairs"
    and co: "collect env d tf pairs [] [] = Inr (masks, classes)"
    and z: "length masks = 0"
  shows "\<exists>I. mapped_instances env d = Inr I \<and> snd (call env [d] 0) = Inr 1 \<and>
             shape3 (gt_masks I) = (0, H, W) \<and> boxes_shape (gt_boxes I) = (0, 4) \<and>
             gt_classes I = [] \<and> image_size I = (H, W)"
proof -
  from collect_result [OF co] z have e: "masks = []" "classes = []" "pairs = []" by auto
  let ?I = "\<lparr>image_size = (H, W), gt_classes = [], gt_masks = torch_zeros3 (0, H, W),
              gt_boxes = []\<rparr>"
  have mk: "make_instances env (H, W) [] [] = Inr ?I"
    by (simp add: make_instances_def torch_tensor_int64_def)
  have "build_instances env d tf (H, W) = Inr ?I"
    using ap co mk by (simp add: build_instances_def e)
  then have m: "mapped_instances env d = Inr ?I"
    using ld au shi by (simp add: mapped_instances_eq build_instances_image)
  from mapped_instances_returns [OF m] m show ?thesis
    by (simp add: torch_zeros3_def boxes_shape_def)
qed

text \<open>
  The theorem at the concrete record with its labels emptied: \<open>zip\<close> yields no pair,
  the loop accumulates nothing, and the batch is empty with the image's two by two.
\<close>

theorem empty_batch_is_returned_witness:
  "load_image ex_env (ex_record(''labels'' \<mapsto> PLabels [])) = Inr ex_image \<and>
   annotation_pairs (ex_record(''labels'' \<mapsto> PLabels [])) = Inr [] \<and>
   (\<exists>I. mapped_instances ex_env (ex_record(''labels'' \<mapsto> PLabels [])) = Inr I \<and>
        shape3 (gt_masks I) = (0, 2, 2) \<and> boxes_shape (gt_boxes I) = (0, 4))"
proof -
  let ?d = "ex_record(''labels'' \<mapsto> PLabels [])"
  have ld: "load_image ex_env ?d = Inr ex_image"
    by (simp add: load_image_def get_str_def get_key_def check_image_size_def ex_env_def
        ex_record_def ex_image_def)
  have au: "augmentations ex_env ex_image = (ex_image, \<lambda>m. m)" by (simp add: ex_env_def)
  have shi: "shape3 ex_image = (2, 2, 3)" by (simp add: ex_image_def)
  have ap: "annotation_pairs ?d = Inr []"
    by (simp add: annotation_pairs_def get_payloads_def get_labels_def get_key_def ex_record_def)
  have co: "collect ex_env ?d (\<lambda>m. m) [] [] [] = Inr ([], [])" by simp
  have z: "length ([] :: 8 word array2 list) = 0" by simp
  from empty_batch_is_returned [OF ld au shi ap co z] ld ap show ?thesis by blast
qed

lemma load_image_cong:
  assumes "d ''file_name'' = d' ''file_name''" "d ''width'' = d' ''width''"
    "d ''height'' = d' ''height''"
  shows "load_image env d = load_image env d'"
proof -
  have c: "check_image_size d img = check_image_size d' img" for img
    using assms by (simp add: check_image_size_def)
  have g: "get_str d ''file_name'' = get_str d' ''file_name''"
    using assms by (simp add: get_str_def get_key_def)
  show ?thesis by (simp only: load_image_def c g)
qed

text \<open>
  C10. For a record whose \<open>'instance'\<close> and \<open>'labels'\<close> have any lengths, with
  \<open>m\<close> the smaller of the two: when \<open>m\<close> is positive the call does exactly what it
  does on the record with both sequences cut to their first \<open>m\<close> entries (the same
  exception or the same instances), so the surplus is never read and the difference of the
  lengths raises nothing; a mapped record has \<open>m\<close> mask rows, classes and boxes; and a
  non-empty \<open>'instance'\<close> with empty \<open>'labels'\<close> gives, once the image is loaded, a
  returned record with the empty batch.
\<close>

theorem surplus_annotations_ignored:
  assumes i: "d ''instance'' = Some (PPayloads insts)" and l: "d ''labels'' = Some (PLabels labels)"
  shows "(0 < min (length insts) (length labels) \<longrightarrow>
            mapped_instances env d =
            mapped_instances env
              (d(''instance'' \<mapsto> PPayloads (take (min (length insts) (length labels)) insts),
                 ''labels'' \<mapsto> PLabels (take (min (length insts) (length labels)) labels)))) \<and>
         (\<forall>I. mapped_instances env d = Inr I \<longrightarrow>
              fst (shape3 (gt_masks I)) = min (length insts) (length labels) \<and>
              length (gt_classes I) = min (length insts) (length labels) \<and>
              length (gt_boxes I) = min (length insts) (length labels)) \<and>
         (insts \<noteq> [] \<and> labels = [] \<longrightarrow>
            (\<forall>img0. load_image env d = Inr img0 \<longrightarrow>
               (\<exists>I. mapped_instances env d = Inr I \<and> snd (call env [d] 0) = Inr 1 \<and>
                    fst (shape3 (gt_masks I)) = 0 \<and> gt_boxes I = [] \<and> gt_classes I = [])))"
proof -
  let ?m = "min (length insts) (length labels)"
  let ?d' = "d(''instance'' \<mapsto> PPayloads (take ?m insts), ''labels'' \<mapsto> PLabels (take ?m labels))"
  have first: "mapped_instances env d = mapped_instances env ?d'" if pos: "0 < ?m"
  proof -
    have ne: "insts \<noteq> []" "take ?m insts \<noteq> []" using pos by auto
    have zp: "zip (take ?m insts) (take ?m labels) = zip insts labels"
      by (simp add: take_zip [symmetric])
    have ap: "annotation_pairs d = Inr (zip insts labels)"
      using annotation_pairs_zip [OF i l] ne by simp
    have "annotation_pairs ?d' = Inr (zip (take ?m insts) (take ?m labels))"
      using annotation_pairs_zip [of ?d' "take ?m insts" "take ?m labels"] ne by simp
    then have ap': "annotation_pairs ?d' = Inr (zip insts labels)" by (simp only: zp)
    have co: "collect env ?d' tf ps [] [] = collect env d tf ps [] []" for tf ps
      by (rule collect_dict_cong) simp_all
    have b: "build_instances env ?d' tf shp = build_instances env d tf shp" for tf shp
      by (simp only: build_instances_def ap ap' co)
    have ld: "load_image env ?d' = load_image env d"
      by (rule load_image_cong) simp_all
    show ?thesis
      by (simp only: mapped_instances_eq build_instances_image ld b)
  qed
  have second: "fst (shape3 (gt_masks I)) = ?m \<and> length (gt_classes I) = ?m \<and>
                length (gt_boxes I) = ?m" if ok: "mapped_instances env d = Inr I" for I
  proof -
    from mapped_instances_rows [OF ok i l] obtain shp masks where
      lm: "length masks = ?m"
      and m: "make_instances env shp masks (take (length masks) labels) = Inr I"
      by blast
    from make_instances_shape [OF m] lm show ?thesis by simp
  qed
  have third: "\<exists>I. mapped_instances env d = Inr I \<and> snd (call env [d] 0) = Inr 1 \<and>
                    fst (shape3 (gt_masks I)) = 0 \<and> gt_boxes I = [] \<and> gt_classes I = []"
    if ne: "insts \<noteq> [] \<and> labels = []" and ld: "load_image env d = Inr img0" for img0
  proof -
    obtain img tf where au: "augmentations env img0 = (img, tf)"
      by (cases "augmentations env img0")
    let ?shp = "(fst (shape3 img), fst (snd (shape3 img)))"
    let ?I = "\<lparr>image_size = ?shp, gt_classes = [],
                gt_masks = torch_zeros3 (0, fst ?shp, snd ?shp), gt_boxes = []\<rparr>"
    have ap: "annotation_pairs d = Inr []"
      using annotation_pairs_zip [OF i l] ne by simp
    have mk: "make_instances env ?shp [] [] = Inr ?I"
      by (simp add: make_instances_def torch_tensor_int64_def)
    have "build_instances env d tf ?shp = Inr ?I"
      using ap mk by (simp add: build_instances_def)
    then have m: "mapped_instances env d = Inr ?I"
      using ld au by (simp add: mapped_instances_eq build_instances_image)
    from mapped_instances_returns [OF m] m show ?thesis by (simp add: torch_zeros3_def)
  qed
  from first second third show ?thesis by blast
qed


text \<open>
  The theorem at the concrete record with two payloads and the one label 5: the result
  is that of the record with the first payload only, one row and one class.
\<close>

theorem surplus_annotations_ignored_witness:
  "mapped_instances ex_env (ex_record(''labels'' \<mapsto> PLabels [5])) =
   mapped_instances ex_env (ex_record(''instance'' \<mapsto> PPayloads [2], ''labels'' \<mapsto> PLabels [5])) \<and>
   (\<exists>I. mapped_instances ex_env (ex_record(''labels'' \<mapsto> PLabels [5])) = Inr I \<and>
        fst (shape3 (gt_masks I)) = 1 \<and> length (gt_classes I) = 1)"
proof -
  let ?d = "ex_record(''labels'' \<mapsto> PLabels [5])"
  have i: "?d ''instance'' = Some (PPayloads [2, 1])" by (simp add: ex_record_def)
  have l: "?d ''labels'' = Some (PLabels [5])" by simp
  note t = surplus_annotations_ignored [OF i l, of ex_env]
  have pos: "0 < min (length [2, 1 :: nat]) (length [5 :: int])" by simp
  from t pos have "mapped_instances ex_env ?d =
            mapped_instances ex_env
              (?d(''instance'' \<mapsto> PPayloads (take (min (length [2, 1 :: nat]) (length [5 :: int])) [2, 1]),
                 ''labels'' \<mapsto> PLabels (take (min (length [2, 1 :: nat]) (length [5 :: int])) [5])))"
    by blast
  then have first: "mapped_instances ex_env ?d =
     mapped_instances ex_env (ex_record(''instance'' \<mapsto> PPayloads [2], ''labels'' \<mapsto> PLabels [5]))"
    by simp
  have "\<exists>I. mapped_instances ex_env ?d = Inr I" by (simp add: mapped_instances_def ex_defs)
  then obtain I where ok: "mapped_instances ex_env ?d = Inr I" by blast
  with t have "fst (shape3 (gt_masks I)) = min (length [2, 1 :: nat]) (length [5 :: int]) \<and>
               length (gt_classes I) = min (length [2, 1 :: nat]) (length [5 :: int])" by blast
  then have "fst (shape3 (gt_masks I)) = 1 \<and> length (gt_classes I) = 1" by simp
  with first ok show ?thesis by blast
qed

end
